theory Spec2Isabelle
  imports Main "HOL-Library.AList" "HOL-Library.Multiset"
begin

section \<open>Python values\<close>

text \<open>
  Exceptions that the script does not catch are values of \<open>py_error\<close>; a function that
  can raise returns \<open>py_error + 'a\<close>, with \<open>Inl\<close> for the exception.
\<close>

datatype py_error = KeyError | TypeError | AttributeError | IndexError

subsection \<open>Strings\<close>

text \<open>
  A Python \<open>str\<close> is a \<open>string\<close> whose characters are read as code points below 256.
  \<open>isspace\<close> lists the code points below 256 for which Python's \<open>str.isspace\<close> holds;
  \<open>strip\<close> is \<open>str.strip()\<close> and \<open>py_in sub s\<close> is the test \<open>sub in s\<close>.
\<close>

definition isspace :: "char \<Rightarrow> bool" where
  "isspace c = (of_char c \<in> {9::nat, 10, 11, 12, 13, 28, 29, 30, 31, 32, 133, 160})"

definition strip :: "string \<Rightarrow> string" where
  "strip s = rev (dropWhile isspace (rev (dropWhile isspace s)))"

fun starts_with :: "string \<Rightarrow> string \<Rightarrow> bool" where
  "starts_with [] s = True"
| "starts_with (p # ps) [] = False"
| "starts_with (p # ps) (c # cs) = (p = c \<and> starts_with ps cs)"

fun py_in :: "string \<Rightarrow> string \<Rightarrow> bool" where
  "py_in sub [] = (sub = [])"
| "py_in sub (c # cs) = (starts_with sub (c # cs) \<or> py_in sub cs)"

text \<open>Decimal and two-digit hexadecimal formatting, as \<open>%d\<close> and \<open>%02X\<close> print them.\<close>

definition digit_char :: "nat \<Rightarrow> char" where
  "digit_char n = (if n < 10 then char_of (48 + n) else char_of (55 + n))"

function show_nat :: "nat \<Rightarrow> string" where
  "show_nat n = (if n < 10 then [digit_char n] else show_nat (n div 10) @ [digit_char (n mod 10)])"
  by pat_completeness auto
termination
  by (relation "measure id") auto

declare show_nat.simps [simp del]

definition show_int :: "int \<Rightarrow> string" where
  "show_int i = (if i < 0 then CHR ''-'' # show_nat (nat (- i)) else show_nat (nat i))"

definition hex2 :: "nat \<Rightarrow> string" where
  "hex2 n = [digit_char (n div 16 mod 16), digit_char (n mod 16)]"

section \<open>The parsed document\<close>

text \<open>
  The document library is outside the script; only what the script reads of it is
  modelled. A member of the library's highlight enumeration is an integer with a name:
  its truth value is that of the integer and \<open>str\<close> prints \<open>NAME (value)\<close>, the form of
  the keys of \<open>annotation_map\<close>. An RGB colour is a triple of bytes that prints as six
  hexadecimal digits and, being a non-empty tuple, is always true. \<open>run.font.color\<close> is
  always an object, so only its \<open>rgb\<close> is a field here.
\<close>

datatype wd_color_index = WdColor (member_name: string) (member_value: int)

datatype rgb_color = RGBColor nat nat nat

record run =
  font_highlight_color :: "wd_color_index option"
  font_color_rgb :: "rgb_color option"
  run_text :: string

record cell =
  cell_text :: string
  paragraphs :: "run list list"

type_synonym row = "cell list"
type_synonym table = "row list"
type_synonym document = "table list"

datatype color = HighlightIndex wd_color_index | RGB rgb_color

fun str_color :: "color \<Rightarrow> string" where
  "str_color (HighlightIndex h) = member_name h @ '' ('' @ show_int (member_value h) @ '')''"
| "str_color (RGB (RGBColor r g b)) = hex2 r @ hex2 g @ hex2 b"

section \<open>get_highlight_color\<close>

definition truthy_highlight :: "wd_color_index option \<Rightarrow> bool" where
  "truthy_highlight h = (case h of None \<Rightarrow> False | Some c \<Rightarrow> member_value c \<noteq> 0)"

definition get_highlight_color :: "run \<Rightarrow> color option" where
  "get_highlight_color r =
     (if truthy_highlight (font_highlight_color r)
      then map_option HighlightIndex (font_highlight_color r)
      else if font_color_rgb r \<noteq> None then map_option RGB (font_color_rgb r)
      else None)"

section \<open>extract_peco_highlights_from_tables\<close>

text \<open>
  A Python dictionary is an association list in insertion order: \<open>AList.update\<close>
  overwrites the value of a key in place or appends a new key at the end.
\<close>

datatype tval = TStr string | TElems "(string \<times> string list) list"

type_synonym table_dict = "(string \<times> tval) list"

definition annotation_map :: "(string \<times> string) list" where
  "annotation_map =
     [(''PINK (5)'', ''Population''),
      (''BRIGHT_GREEN (4)'', ''Exposure''),
      (''TURQUOISE (3)'', ''Comparator''),
      (''YELLOW (7)'', ''Outcome'')]"

text \<open>The body of the loop over the runs of the PECO cell, on the pair
  \<open>(color_text_map, statement)\<close>.\<close>

definition run_step ::
  "(string \<times> string list) list \<times> string \<Rightarrow> run \<Rightarrow> (string \<times> string list) list \<times> string" where
  "run_step st r =
     (let color_text_map = fst st;
          statement = snd st;
          color = get_highlight_color r;
          text = strip (run_text r);
          color_text_map =
            (case color of
               None \<Rightarrow> color_text_map
             | Some c \<Rightarrow>
                 if text = [] then color_text_map
                 else (case map_of annotation_map (str_color c) of
                         None \<Rightarrow> color_text_map
                       | Some color_key \<Rightarrow>
                           AList.map_entry color_key (\<lambda>l. l @ [text])
                             (if map_of color_text_map color_key = None
                              then AList.update color_key [] color_text_map
                              else color_text_map)))
      in (color_text_map, statement @ [] @ text @ '' ''))"

definition peco_cell_scan :: "cell \<Rightarrow> (string \<times> string list) list \<times> string" where
  "peco_cell_scan c = foldl run_step ([], []) (concat (paragraphs c))"

text \<open>The body of the loop over the rows of a table; \<open>row.cells[0]\<close> raises on a row
  without cells.\<close>

definition store_if :: "bool \<Rightarrow> string \<Rightarrow> tval \<Rightarrow> table_dict \<Rightarrow> table_dict" where
  "store_if b k v d = (if b then AList.update k v d else d)"

definition row_step :: "table_dict \<Rightarrow> row \<Rightarrow> py_error + table_dict" where
  "row_step table_dict r =
     (if r = [] then Inl IndexError
      else
        let first = strip (cell_text (hd r));
            value = TStr (strip (cell_text (last r)));
            d = store_if (py_in ''Title of manuscript'' first) ''doc_title'' value table_dict;
            d = store_if (py_in ''Last name of first author'' first) ''doc_lastauthorname'' value d;
            d = store_if (py_in ''Year of publication'' first) ''doc_year'' value d;
            d = store_if (py_in ''URL of HTML manuscript'' first) ''doc_url'' value d;
            d = store_if (py_in ''Section PECO statement is in'' first) ''doc_peco_section'' value d;
            d = store_if (py_in ''Annotator comments'' first) ''doc_annotator_comments'' value d;
            d = (if py_in ''PECO statement'' first
                 then (let scan = peco_cell_scan (last r)
                       in AList.update ''peco_statement'' (TStr (snd scan))
                            (AList.update ''peco_elements'' (TElems (fst scan)) d))
                 else d)
        in Inr d)"

fun rows_loop :: "table_dict \<Rightarrow> row list \<Rightarrow> py_error + table_dict" where
  "rows_loop table_dict [] = Inr table_dict"
| "rows_loop table_dict (r # rs) =
     (case row_step table_dict r of
        Inl e \<Rightarrow> Inl e
      | Inr d \<Rightarrow> rows_loop d rs)"

fun tables_loop :: "table_dict list \<Rightarrow> document \<Rightarrow> py_error + table_dict list" where
  "tables_loop tables_data [] = Inr tables_data"
| "tables_loop tables_data (t # ts) =
     (case rows_loop [] t of
        Inl e \<Rightarrow> Inl e
      | Inr table_dict \<Rightarrow>
          tables_loop (if table_dict \<noteq> [] then tables_data @ [table_dict] else tables_data) ts)"

definition extract_peco_highlights_from_tables :: "document \<Rightarrow> py_error + table_dict list" where
  "extract_peco_highlights_from_tables doc = tables_loop [] doc"

section \<open>The ontology service\<close>

text \<open>
  A parsed JSON body. An object is an association list of its members; \<open>JNum\<close> is an
  integer and \<open>JFloat\<close> a float, given by its bit pattern, as the script never
  computes with one. A request either raises
  \<open>requests.RequestException\<close> (a transport failure, or a status that
  \<open>raise_for_status\<close> rejects) or delivers a parsed body.
\<close>

datatype json = JNull | JBool bool | JNum int | JFloat nat | JStr string | JArr "json list"
  | JObj "(string \<times> json) list"

datatype http_outcome = RequestException | Body json

type_synonym pydict = "(string \<times> json) list"

text \<open>\<open>x.get(k, d)\<close>: only a dictionary has the method.\<close>

fun py_get :: "json \<Rightarrow> string \<Rightarrow> json \<Rightarrow> py_error + json" where
  "py_get (JObj kvs) k d = Inr (case map_of kvs k of None \<Rightarrow> d | Some v \<Rightarrow> v)"
| "py_get _ k d = Inl AttributeError"

text \<open>The elements a \<open>for\<close> loop sees: the items of a list, the keys of a dictionary,
  the characters of a string; anything else is not iterable.\<close>

fun py_iter :: "json \<Rightarrow> py_error + json list" where
  "py_iter (JArr xs) = Inr xs"
| "py_iter (JObj kvs) = Inr (map (\<lambda>kv. JStr (fst kv)) kvs)"
| "py_iter (JStr s) = Inr (map (\<lambda>c. JStr [c]) s)"
| "py_iter _ = Inl TypeError"

definition py_getitem :: "('k \<times> 'v) list \<Rightarrow> 'k \<Rightarrow> py_error + 'v" where
  "py_getitem d k = (case map_of d k of None \<Rightarrow> Inl KeyError | Some v \<Rightarrow> Inr v)"

section \<open>retrieve_ontology_matches\<close>

definition concept_of :: "pydict \<Rightarrow> pydict" where
  "concept_of term_info =
     [(''label'', case map_of term_info ''label'' of None \<Rightarrow> JStr ''No Label'' | Some v \<Rightarrow> v),
      (''iri'', case map_of term_info ''iri'' of None \<Rightarrow> JStr ''No IRI'' | Some v \<Rightarrow> v),
      (''description'',
         case map_of term_info ''description'' of None \<Rightarrow> JStr ''No Description'' | Some v \<Rightarrow> v),
      (''ontology_name'',
         case map_of term_info ''ontology_name'' of None \<Rightarrow> JStr ''No Ontology Name'' | Some v \<Rightarrow> v),
      (''short_form'',
         case map_of term_info ''short_form'' of None \<Rightarrow> JStr ''No Short Form'' | Some v \<Rightarrow> v)]"

fun make_concept :: "json \<Rightarrow> py_error + pydict" where
  "make_concept (JObj term_info) = Inr (concept_of term_info)"
| "make_concept _ = Inl AttributeError"

fun concepts_loop :: "pydict list \<Rightarrow> json list \<Rightarrow> py_error + pydict list" where
  "concepts_loop ontology_matches [] = Inr ontology_matches"
| "concepts_loop ontology_matches (term_info # rest) =
     (case make_concept term_info of
        Inl e \<Rightarrow> Inl e
      | Inr concept \<Rightarrow> concepts_loop (ontology_matches @ [concept]) rest)"

text \<open>
  The function returns the pair \<open>(jsonresults, ontology_matches)\<close> from the \<open>try\<close>
  block; the \<open>except\<close> block prints and ends without a \<open>return\<close>, so the call
  returns \<open>None\<close>. The search request is a parameter \<open>http_get\<close> of the query
  parameters, and so is \<open>json.dumps\<close>.
\<close>

datatype retrieve_result = PyNone | Pair string "pydict list"

definition search_params :: "string \<Rightarrow> int \<Rightarrow> json option \<Rightarrow> pydict" where
  "search_params term numresults ontology =
     (let params = [(''q'', JStr term), (''rows'', JNum numresults)]
      in case ontology of None \<Rightarrow> params | Some ont \<Rightarrow> AList.update ''ontology'' ont params)"

definition retrieve_ontology_matches ::
  "(pydict \<Rightarrow> http_outcome) \<Rightarrow> (json \<Rightarrow> string) \<Rightarrow> string \<Rightarrow> int \<Rightarrow> json option
     \<Rightarrow> py_error + retrieve_result" where
  "retrieve_ontology_matches http_get dumps term numresults ontology =
     (case http_get (search_params term numresults ontology) of
        RequestException \<Rightarrow> Inr PyNone
      | Body results \<Rightarrow>
          (case py_get results ''response'' (JObj []) of
             Inl e \<Rightarrow> Inl e
           | Inr response \<Rightarrow>
               (case py_get response ''docs'' (JArr []) of
                  Inl e \<Rightarrow> Inl e
                | Inr docs \<Rightarrow>
                    (case py_iter docs of
                       Inl e \<Rightarrow> Inl e
                     | Inr infos \<Rightarrow>
                         (case concepts_loop [] infos of
                            Inl e \<Rightarrow> Inl e
                          | Inr ontology_matches \<Rightarrow>
                              Inr (Pair (dumps results) ontology_matches))))))"

section \<open>get_term_ancestors\<close>

text \<open>
  \<open>quote\<close> raises \<open>TypeError\<close> on anything but a string, before the \<open>try\<close> block.
  The request is a parameter \<open>http_get\<close> of the ontology and the IRI, from which the
  URL is built. On \<open>RequestException\<close> the function returns the exception object.
\<close>

datatype ancestors_result = AncestorList "json list" | ExceptionObject

definition get_term_ancestors ::
  "(json \<Rightarrow> string \<Rightarrow> http_outcome) \<Rightarrow> json \<Rightarrow> json \<Rightarrow> py_error + ancestors_result" where
  "get_term_ancestors http_get ontology iri =
     (case iri of
        JStr s \<Rightarrow>
          (case http_get ontology s of
             RequestException \<Rightarrow> Inr ExceptionObject
           | Body result \<Rightarrow>
               (case py_get result ''_embedded'' (JObj []) of
                  Inl e \<Rightarrow> Inl e
                | Inr embedded \<Rightarrow>
                    (case py_get embedded ''terms'' (JArr []) of
                       Inl e \<Rightarrow> Inl e
                     | Inr terms \<Rightarrow>
                         (case py_iter terms of
                            Inl e \<Rightarrow> Inl e
                          | Inr ancestors \<Rightarrow> Inr (AncestorList ancestors)))))
      | _ \<Rightarrow> Inl TypeError)"

section \<open>rank_ontology_matches_by_distance\<close>

text \<open>
  The concept records are objects that the function mutates and that its caller still
  holds, so they live in a heap: a record is a reference, and the function returns its
  result together with the heap it leaves. \<open>len\<close> of an exception object raises
  \<open>TypeError\<close>, in the \<open>print\<close> before the record is touched. The pause
  \<open>time.sleep(DELAY)\<close> changes no value.
\<close>

type_synonym ref = nat
type_synonym heap = "ref \<Rightarrow> pydict"

fun rank_loop ::
  "(json \<Rightarrow> string \<Rightarrow> http_outcome) \<Rightarrow> ref list \<Rightarrow> ref list \<Rightarrow> heap
     \<Rightarrow> (py_error + ref list) \<times> heap" where
  "rank_loop http_get matches_with_metadata [] h = (Inr matches_with_metadata, h)"
| "rank_loop http_get matches_with_metadata (m # ms) h =
     (case py_getitem (h m) ''iri'' of
        Inl e \<Rightarrow> (Inl e, h)
      | Inr iri \<Rightarrow>
          (case py_getitem (h m) ''ontology_name'' of
             Inl e \<Rightarrow> (Inl e, h)
           | Inr ontology \<Rightarrow>
               (case get_term_ancestors http_get ontology iri of
                  Inl e \<Rightarrow> (Inl e, h)
                | Inr ExceptionObject \<Rightarrow> (Inl TypeError, h)
                | Inr (AncestorList ancestors) \<Rightarrow>
                    rank_loop http_get (matches_with_metadata @ [m]) ms
                      (h(m := AList.update ''distance_from_root'' (JNum (int (length ancestors)))
                                (AList.update ''ancestors'' (JArr ancestors) (h m)))))))"

text \<open>\<open>list.sort(key=...)\<close>: the key of every element is computed first, then the
  elements are sorted by their keys, stably. The loop has stored an integer under
  \<open>distance_from_root\<close> in every record of the list, so the keys are integers; a key
  of another kind, which the loop cannot produce, stands as \<open>TypeError\<close>.\<close>

definition distance_key :: "heap \<Rightarrow> ref \<Rightarrow> py_error + int" where
  "distance_key h x =
     (case py_getitem (h x) ''distance_from_root'' of
        Inl e \<Rightarrow> Inl e
      | Inr (JNum n) \<Rightarrow> Inr n
      | Inr _ \<Rightarrow> Inl TypeError)"

fun sort_keys :: "heap \<Rightarrow> ref list \<Rightarrow> py_error + int list" where
  "sort_keys h [] = Inr []"
| "sort_keys h (x # xs) =
     (case distance_key h x of
        Inl e \<Rightarrow> Inl e
      | Inr k \<Rightarrow> (case sort_keys h xs of Inl e \<Rightarrow> Inl e | Inr ks \<Rightarrow> Inr (k # ks)))"

definition sort_by_distance :: "heap \<Rightarrow> ref list \<Rightarrow> py_error + ref list" where
  "sort_by_distance h xs =
     (case sort_keys h xs of
        Inl e \<Rightarrow> Inl e
      | Inr ks \<Rightarrow> Inr (map snd (sort_key fst (zip ks xs))))"

definition rank_ontology_matches_by_distance ::
  "(json \<Rightarrow> string \<Rightarrow> http_outcome) \<Rightarrow> ref list \<Rightarrow> heap \<Rightarrow> (py_error + ref list) \<times> heap" where
  "rank_ontology_matches_by_distance http_get ontology_matches h =
     (case rank_loop http_get [] ontology_matches h of
        (Inl e, h') \<Rightarrow> (Inl e, h')
      | (Inr matches_with_metadata, h') \<Rightarrow> (sort_by_distance h' matches_with_metadata, h'))"

section \<open>The enrichment loop\<close>

definition NUMRESULTS :: int where
  "NUMRESULTS = 5"

record enriched_phrase =
  phrase_text :: string
  matches :: "pydict list"

record annotation_d =
  doc_title :: tval
  doc_lastauthorname :: tval
  doc_year :: tval
  url :: tval
  doc_peco_section :: tval
  peco_statement :: tval
  peco_elements :: "(string \<times> enriched_phrase list) list"

text \<open>Unpacking \<open>None\<close> into \<open>jsonresults, ontology_matches\<close> raises \<open>TypeError\<close>.\<close>

fun texts_loop ::
  "(pydict \<Rightarrow> http_outcome) \<Rightarrow> (json \<Rightarrow> string) \<Rightarrow> string \<Rightarrow> string list
     \<Rightarrow> (string \<times> enriched_phrase list) list \<Rightarrow> py_error + (string \<times> enriched_phrase list) list" where
  "texts_loop http_get dumps peco_element [] els = Inr els"
| "texts_loop http_get dumps peco_element (t # ts) els =
     (case retrieve_ontology_matches http_get dumps t NUMRESULTS None of
        Inl e \<Rightarrow> Inl e
      | Inr PyNone \<Rightarrow> Inl TypeError
      | Inr (Pair jsonresults ontology_matches) \<Rightarrow>
          (case py_getitem els peco_element of
             Inl e \<Rightarrow> Inl e
           | Inr current_elements \<Rightarrow>
               texts_loop http_get dumps peco_element ts
                 (AList.update peco_element
                    (current_elements @ [\<lparr>phrase_text = t, matches = ontology_matches\<rparr>]) els)))"

fun elements_loop ::
  "(pydict \<Rightarrow> http_outcome) \<Rightarrow> (json \<Rightarrow> string) \<Rightarrow> (string \<times> string list) list
     \<Rightarrow> (string \<times> enriched_phrase list) list \<Rightarrow> py_error + (string \<times> enriched_phrase list) list" where
  "elements_loop http_get dumps [] els = Inr els"
| "elements_loop http_get dumps ((peco_element, el_texts) # rest) els =
     (case texts_loop http_get dumps peco_element el_texts els of
        Inl e \<Rightarrow> Inl e
      | Inr els' \<Rightarrow> elements_loop http_get dumps rest els')"

text \<open>The body of the loop over the annotations. The two \<open>print\<close> calls read
  \<open>doc_title\<close> and \<open>peco_elements\<close> first; \<open>.items()\<close> needs a dictionary.\<close>

definition enrich_annotation ::
  "(pydict \<Rightarrow> http_outcome) \<Rightarrow> (json \<Rightarrow> string) \<Rightarrow> table_dict \<Rightarrow> py_error + annotation_d" where
  "enrich_annotation http_get dumps annotation =
     (case py_getitem annotation ''doc_title'' of Inl e \<Rightarrow> Inl e | Inr _ \<Rightarrow>
     (case py_getitem annotation ''peco_elements'' of Inl e \<Rightarrow> Inl e | Inr _ \<Rightarrow>
     (case py_getitem annotation ''doc_title'' of Inl e \<Rightarrow> Inl e | Inr title \<Rightarrow>
     (case py_getitem annotation ''doc_lastauthorname'' of Inl e \<Rightarrow> Inl e | Inr author \<Rightarrow>
     (case py_getitem annotation ''doc_year'' of Inl e \<Rightarrow> Inl e | Inr year \<Rightarrow>
     (case py_getitem annotation ''doc_url'' of Inl e \<Rightarrow> Inl e | Inr doc_url \<Rightarrow>
     (case py_getitem annotation ''doc_peco_section'' of Inl e \<Rightarrow> Inl e | Inr section \<Rightarrow>
     (case py_getitem annotation ''peco_statement'' of Inl e \<Rightarrow> Inl e | Inr statement \<Rightarrow>
     (case py_getitem annotation ''peco_elements'' of
        Inl e \<Rightarrow> Inl e
      | Inr (TStr _) \<Rightarrow> Inl AttributeError
      | Inr (TElems elements) \<Rightarrow>
          (case elements_loop http_get dumps elements
                  [(''Population'', []), (''Exposure'', []), (''Comparator'', []), (''Outcome'', [])] of
             Inl e \<Rightarrow> Inl e
           | Inr els \<Rightarrow>
               Inr \<lparr>doc_title = title, doc_lastauthorname = author, doc_year = year,
                    url = doc_url, doc_peco_section = section, peco_statement = statement,
                    peco_elements = els\<rparr>))))))))))"

fun enrichment_loop ::
  "(pydict \<Rightarrow> http_outcome) \<Rightarrow> (json \<Rightarrow> string) \<Rightarrow> annotation_d list \<Rightarrow> table_dict list
     \<Rightarrow> py_error + annotation_d list" where
  "enrichment_loop http_get dumps parsed_output [] = Inr parsed_output"
| "enrichment_loop http_get dumps parsed_output (annotation # rest) =
     (case enrich_annotation http_get dumps annotation of
        Inl e \<Rightarrow> Inl e
      | Inr d \<Rightarrow> enrichment_loop http_get dumps (parsed_output @ [d]) rest)"

text \<open>The script: extraction, then enrichment of what was extracted.\<close>

definition script ::
  "(pydict \<Rightarrow> http_outcome) \<Rightarrow> (json \<Rightarrow> string) \<Rightarrow> document \<Rightarrow> py_error + annotation_d list" where
  "script http_get dumps doc =
     (case extract_peco_highlights_from_tables doc of
        Inl e \<Rightarrow> Inl e
      | Inr annotations \<Rightarrow> enrichment_loop http_get dumps [] annotations)"

section \<open>Predicates and example inputs of the properties\<close>

text \<open>A row whose first cell's trimmed text contains a label, as the row loop tests it.\<close>

definition first_cell_contains :: "string \<Rightarrow> row \<Rightarrow> bool" where
  "first_cell_contains label r = (r \<noteq> [] \<and> py_in label (strip (cell_text (hd r))))"

definition row_labels :: "string list" where
  "row_labels =
     [''Title of manuscript'', ''Last name of first author'', ''Year of publication'',
      ''URL of HTML manuscript'', ''Section PECO statement is in'', ''Annotator comments'',
      ''PECO statement'']"

definition has_peco_row :: "table \<Rightarrow> bool" where
  "has_peco_row t = list_ex (first_cell_contains ''PECO statement'') t"

definition recognized_row :: "row \<Rightarrow> bool" where
  "recognized_row r = list_ex (\<lambda>l. first_cell_contains l r) row_labels"

definition has_recognized_row :: "table \<Rightarrow> bool" where
  "has_recognized_row t = list_ex recognized_row t"

definition plain_cell :: "string \<Rightarrow> cell" where
  "plain_cell s =
     \<lparr>cell_text = s,
      paragraphs = [[\<lparr>font_highlight_color = None, font_color_rgb = None, run_text = s\<rparr>]]\<rparr>"

definition PINK :: wd_color_index where
  "PINK = WdColor ''PINK'' 5"

definition AUTO :: wd_color_index where
  "AUTO = WdColor ''AUTO'' 0"

definition pink_run :: "string \<Rightarrow> run" where
  "pink_run s = \<lparr>font_highlight_color = Some PINK, font_color_rgb = None, run_text = s\<rparr>"

definition plain_run :: "string \<Rightarrow> run" where
  "plain_run s = \<lparr>font_highlight_color = None, font_color_rgb = None, run_text = s\<rparr>"

definition auto_red_run :: run where
  "auto_red_run =
     \<lparr>font_highlight_color = Some AUTO, font_color_rgb = Some (RGBColor 255 0 0),
      run_text = ''elderly adults''\<rparr>"

definition red_run :: run where
  "red_run =
     \<lparr>font_highlight_color = None, font_color_rgb = Some (RGBColor 255 0 0),
      run_text = ''elderly adults''\<rparr>"

definition scenario_table :: table where
  "scenario_table =
     [[plain_cell ''Title of manuscript'', plain_cell ''Study X''],
      [plain_cell ''Year of publication'', plain_cell ''2020''],
      [plain_cell ''PECO statement'',
       \<lparr>cell_text = ''elderly adultswere studied'',
        paragraphs = [[pink_run ''elderly adults'', plain_run ''were studied'']]\<rparr>]]"

definition title_only_table :: table where
  "title_only_table = [[plain_cell ''Title of manuscript'', plain_cell ''Study X'']]"

definition unlabelled_table :: table where
  "unlabelled_table = [[plain_cell ''Reviewer'', plain_cell ''A. Smith'']]"

definition children_row :: row where
  "children_row =
     [plain_cell ''PECO statement'',
      \<lparr>cell_text = ''children'', paragraphs = [[pink_run ''children'']]\<rparr>]"

definition adults_row :: row where
  "adults_row =
     [plain_cell ''PECO statement (revised)'',
      \<lparr>cell_text = ''adults'', paragraphs = [[pink_run ''adults'']]\<rparr>]"

definition year_row :: row where
  "year_row = [plain_cell ''Year of publication'', plain_cell ''2020'']"

definition search_infos :: "pydict list" where
  "search_infos =
     [[(''label'', JStr ''diabetes mellitus''),
       (''iri'', JStr ''http://purl.obolibrary.org/obo/MONDO_0005015''),
       (''ontology_name'', JStr ''mondo'')]]"

definition search_response :: json where
  "search_response = JObj [(''docs'', JArr (map JObj search_infos))]"

definition search_body :: json where
  "search_body = JObj [(''response'', search_response)]"

text \<open>
  The ancestor fetch of a record succeeds with the ancestors \<open>anc\<close>; the heap after the
  loop body has run on a record; a record that carries its ancestors and their number.
\<close>

definition fetch_ok ::
  "(json \<Rightarrow> string \<Rightarrow> http_outcome) \<Rightarrow> heap \<Rightarrow> ref \<Rightarrow> json list \<Rightarrow> bool" where
  "fetch_ok http_get h m anc =
     (case map_of (h m) ''iri'' of
        Some (JStr i) \<Rightarrow>
          (case map_of (h m) ''ontology_name'' of
             Some ont \<Rightarrow> get_term_ancestors http_get ont (JStr i) = Inr (AncestorList anc)
           | None \<Rightarrow> False)
      | _ \<Rightarrow> False)"

definition augment :: "heap \<Rightarrow> ref \<Rightarrow> json list \<Rightarrow> heap" where
  "augment h m anc =
     h(m := AList.update ''distance_from_root'' (JNum (int (length anc)))
              (AList.update ''ancestors'' (JArr anc) (h m)))"

definition ranked :: "heap \<Rightarrow> ref \<Rightarrow> json list \<Rightarrow> bool" where
  "ranked h m anc =
     (map_of (h m) ''ancestors'' = Some (JArr anc)
        \<and> map_of (h m) ''distance_from_root'' = Some (JNum (int (length anc))))"

definition concept_A :: pydict where
  "concept_A =
     [(''label'', JStr ''asthma''), (''iri'', JStr ''http://www.ebi.ac.uk/efo/A''),
      (''description'', JStr ''No Description''), (''ontology_name'', JStr ''efo''),
      (''short_form'', JStr ''A'')]"

definition concept_B :: pydict where
  "concept_B =
     [(''label'', JStr ''disease''), (''iri'', JStr ''http://www.ebi.ac.uk/efo/B''),
      (''description'', JStr ''No Description''), (''ontology_name'', JStr ''efo''),
      (''short_form'', JStr ''B'')]"

definition two_concepts :: heap where
  "two_concepts = (\<lambda>m. [])(0 := concept_A, 1 := concept_B)"

definition concept_null_iri :: pydict where
  "concept_null_iri =
     [(''label'', JStr ''asthma''), (''iri'', JNull),
      (''description'', JStr ''No Description''), (''ontology_name'', JStr ''efo''),
      (''short_form'', JStr ''A'')]"

definition null_iri_heap :: heap where
  "null_iri_heap = (\<lambda>m. [])(0 := concept_null_iri)"

definition ancestor_terms :: "nat \<Rightarrow> json list" where
  "ancestor_terms n = replicate n (JObj [(''label'', JStr ''Thing'')])"

definition ancestors_body :: "nat \<Rightarrow> json" where
  "ancestors_body n = JObj [(''_embedded'', JObj [(''terms'', JArr (ancestor_terms n))])]"

definition ancestors_3_1 :: "json \<Rightarrow> string \<Rightarrow> http_outcome" where
  "ancestors_3_1 ontology iri =
     (if iri = ''http://www.ebi.ac.uk/efo/A'' then Body (ancestors_body 3)
      else Body (ancestors_body 1))"

definition distance_3_1 :: "ref \<Rightarrow> int" where
  "distance_3_1 m = (if m = 0 then 3 else 1)"

definition ancestors_B_fails :: "json \<Rightarrow> string \<Rightarrow> http_outcome" where
  "ancestors_B_fails ontology iri =
     (if iri = ''http://www.ebi.ac.uk/efo/B'' then RequestException
      else Body (ancestors_body 3))"

definition service_down :: "json \<Rightarrow> string \<Rightarrow> http_outcome" where
  "service_down ontology iri = RequestException"






definition full_table :: table where
  "full_table =
     [[plain_cell ''Title of manuscript'', plain_cell ''Study X''],
      [plain_cell ''Last name of first author'', plain_cell ''Smith''],
      [plain_cell ''Year of publication'', plain_cell ''2020''],
      [plain_cell ''URL of HTML manuscript'', plain_cell ''http://example.org/x''],
      [plain_cell ''Section PECO statement is in'', plain_cell ''Abstract''],
      [plain_cell ''PECO statement'',
       \<lparr>cell_text = ''elderly adultswere studied'',
        paragraphs = [[pink_run ''elderly adults'', plain_run ''were studied'']]\<rparr>]]"

definition full_annotation :: table_dict where
  "full_annotation =
     [(''doc_title'', TStr ''Study X''),
      (''doc_lastauthorname'', TStr ''Smith''),
      (''doc_year'', TStr ''2020''),
      (''doc_url'', TStr ''http://example.org/x''),
      (''doc_peco_section'', TStr ''Abstract''),
      (''peco_elements'', TElems [(''Population'', [''elderly adults''])]),
      (''peco_statement'', TStr ''elderly adults were studied '')]"



definition search_down :: "pydict \<Rightarrow> http_outcome" where
  "search_down params = RequestException"


section \<open>Facts about the extraction loops\<close>

lemma update_not_Nil: "AList.update k v d \<noteq> []"
  by (cases d) auto

lemma store_if_Nil: "(store_if b k v d = []) = (\<not> b \<and> d = [])"
  by (simp add: store_if_def update_not_Nil)

lemma row_step_Nil:
  assumes "r \<noteq> []"
  shows "\<exists>d'. row_step d r = Inr d' \<and> ((d' = []) = (d = [] \<and> \<not> recognized_row r))"
  using assms
  unfolding row_step_def Let_def recognized_row_def row_labels_def first_cell_contains_def
  by (simp add: store_if_Nil update_not_Nil) blast

lemma rows_loop_Nil:
  assumes "\<forall>r\<in>set t. r \<noteq> []"
  shows "\<exists>d'. rows_loop d t = Inr d' \<and> ((d' = []) = (d = [] \<and> \<not> has_recognized_row t))"
  using assms
proof (induction t arbitrary: d)
  case Nil
  then show ?case by (simp add: has_recognized_row_def)
next
  case (Cons r rs)
  from Cons.prems have "r \<noteq> []" by simp
  from row_step_Nil [OF this, of d] obtain d1
    where d1: "row_step d r = Inr d1" "(d1 = []) = (d = [] \<and> \<not> recognized_row r)" by blast
  from Cons.prems have "\<forall>r\<in>set rs. r \<noteq> []" by simp
  from Cons.IH [OF this, of d1] obtain d2
    where d2: "rows_loop d1 rs = Inr d2" "(d2 = []) = (d1 = [] \<and> \<not> has_recognized_row rs)"
    by blast
  show ?case using d1 d2 by (auto simp: has_recognized_row_def)
qed

lemma tables_loop_length:
  assumes "\<forall>t\<in>set doc. \<forall>r\<in>set t. r \<noteq> []"
  shows "\<exists>recs. tables_loop acc doc = Inr recs
           \<and> length recs = length acc + length (filter has_recognized_row doc)"
  using assms
proof (induction doc arbitrary: acc)
  case Nil
  then show ?case by simp
next
  case (Cons t ts)
  from Cons.prems have "\<forall>r\<in>set t. r \<noteq> []" by simp
  from rows_loop_Nil [OF this, of "[]"] obtain d
    where d: "rows_loop [] t = Inr d" "(d = []) = (\<not> has_recognized_row t)" by auto
  from Cons.prems have ts: "\<forall>t\<in>set ts. \<forall>r\<in>set t. r \<noteq> []" by simp
  show ?case
  proof (cases "has_recognized_row t")
    case True
    with d have "d \<noteq> []" by simp
    with Cons.IH [OF ts, of "acc @ [d]"] d True show ?thesis by auto
  next
    case False
    with d have "d = []" by simp
    with Cons.IH [OF ts, of acc] d False show ?thesis by auto
  qed
qed

lemma peco_row_recognized: "has_peco_row t \<Longrightarrow> has_recognized_row t"
  by (auto simp: has_peco_row_def has_recognized_row_def recognized_row_def row_labels_def
      list_ex_iff)

lemma filter_length_mono:
  "(\<And>x. P x \<Longrightarrow> Q x) \<Longrightarrow> length (filter P xs) \<le> length (filter Q xs)"
  by (induction xs) auto

lemma rows_loop_append:
  "rows_loop d (xs @ ys) = (case rows_loop d xs of Inl e \<Rightarrow> Inl e | Inr d' \<Rightarrow> rows_loop d' ys)"
  by (induction xs arbitrary: d) (auto split: sum.splits)

lemma row_step_other:
  assumes "r \<noteq> []" "\<not> first_cell_contains ''PECO statement'' r"
  shows "\<exists>d'. row_step d r = Inr d'
     \<and> map_of d' ''peco_elements'' = map_of d ''peco_elements''
     \<and> map_of d' ''peco_statement'' = map_of d ''peco_statement''"
  using assms
  by (simp add: row_step_def Let_def store_if_def first_cell_contains_def update_conv')

lemma row_step_peco:
  assumes "first_cell_contains ''PECO statement'' r"
  shows "\<exists>d'. row_step d r = Inr d'
     \<and> map_of d' ''peco_elements'' = Some (TElems (fst (peco_cell_scan (last r))))
     \<and> map_of d' ''peco_statement'' = Some (TStr (snd (peco_cell_scan (last r))))"
  using assms
  by (simp add: row_step_def Let_def first_cell_contains_def update_conv')

lemma rows_loop_other:
  assumes "\<forall>r\<in>set rs. r \<noteq> [] \<and> \<not> first_cell_contains ''PECO statement'' r"
  shows "\<exists>d'. rows_loop d rs = Inr d'
     \<and> map_of d' ''peco_elements'' = map_of d ''peco_elements''
     \<and> map_of d' ''peco_statement'' = map_of d ''peco_statement''"
  using assms
proof (induction rs arbitrary: d)
  case Nil
  then show ?case by simp
next
  case (Cons r rs)
  from Cons.prems have "r \<noteq> []" "\<not> first_cell_contains ''PECO statement'' r" by simp_all
  from row_step_other [OF this, of d] obtain d1 where d1: "row_step d r = Inr d1"
    "map_of d1 ''peco_elements'' = map_of d ''peco_elements''"
    "map_of d1 ''peco_statement'' = map_of d ''peco_statement''" by blast
  from Cons.prems have "\<forall>r\<in>set rs. r \<noteq> [] \<and> \<not> first_cell_contains ''PECO statement'' r"
    by simp
  from Cons.IH [OF this, of d1] d1 show ?case by auto
qed

lemma concepts_loop_objects:
  "concepts_loop acc (map JObj infos) = Inr (acc @ map concept_of infos)"
  by (induction infos arbitrary: acc) auto

section \<open>Facts about the ranking loop\<close>

lemma rank_loop_step:
  assumes "fetch_ok g h m anc"
  shows "rank_loop g acc (m # ms) h = rank_loop g (acc @ [m]) ms (augment h m anc)"
  using assms
  by (auto simp: fetch_ok_def py_getitem_def augment_def split: option.splits json.splits)

lemma augment_other: "m' \<noteq> m \<Longrightarrow> augment h m anc m' = h m'"
  by (simp add: augment_def)

lemma augment_frame:
  "k \<noteq> ''ancestors'' \<Longrightarrow> k \<noteq> ''distance_from_root''
     \<Longrightarrow> map_of (augment h m anc m') k = map_of (h m') k"
  by (simp add: augment_def update_conv')

lemma augment_self:
  "map_of (augment h m anc m) ''ancestors'' = Some (JArr anc)"
  "map_of (augment h m anc m) ''distance_from_root'' = Some (JNum (int (length anc)))"
  by (simp_all add: augment_def update_conv')

lemma fetch_ok_augment: "fetch_ok g (augment h m anc) m' a = fetch_ok g h m' a"
  by (simp add: fetch_ok_def augment_frame split: option.splits json.splits)

lemma rank_loop_ok:
  assumes "\<forall>m\<in>set ms. fetch_ok g h m (ancs m)"
    and "\<forall>m\<in>set acc. ranked h m (ancs m)"
  shows "\<exists>h'. rank_loop g acc ms h = (Inr (acc @ ms), h')
     \<and> (\<forall>m\<in>set (acc @ ms). ranked h' m (ancs m))
     \<and> (\<forall>m k. k \<noteq> ''ancestors'' \<and> k \<noteq> ''distance_from_root''
            \<longrightarrow> map_of (h' m) k = map_of (h m) k)
     \<and> (\<forall>m. m \<notin> set ms \<longrightarrow> h' m = h m)"
  using assms
proof (induction ms arbitrary: acc h)
  case Nil
  then show ?case by simp
next
  case (Cons m ms)
  from Cons.prems(1) have anc: "fetch_ok g h m (ancs m)"
    by simp
  let ?h1 = "augment h m (ancs m)"
  have ok1: "\<forall>m'\<in>set ms. fetch_ok g ?h1 m' (ancs m')"
    using Cons.prems(1) by (simp add: fetch_ok_augment)
  have self: "ranked ?h1 m (ancs m)"
    by (simp add: ranked_def augment_self)
  have acc1: "\<forall>m'\<in>set (acc @ [m]). ranked ?h1 m' (ancs m')"
  proof
    fix m' assume m': "m' \<in> set (acc @ [m])"
    show "ranked ?h1 m' (ancs m')"
    proof (cases "m' = m")
      case True
      with self show ?thesis by simp
    next
      case False
      with m' Cons.prems(2) have "ranked h m' (ancs m')" by simp
      with False show ?thesis by (simp add: ranked_def augment_other)
    qed
  qed
  from Cons.IH [OF ok1 acc1] obtain h' where h':
    "rank_loop g (acc @ [m]) ms ?h1 = (Inr ((acc @ [m]) @ ms), h')
     \<and> (\<forall>m'\<in>set ((acc @ [m]) @ ms). ranked h' m' (ancs m'))
     \<and> (\<forall>m' k. k \<noteq> ''ancestors'' \<and> k \<noteq> ''distance_from_root''
            \<longrightarrow> map_of (h' m') k = map_of (?h1 m') k)
     \<and> (\<forall>m'. m' \<notin> set ms \<longrightarrow> h' m' = ?h1 m')" ..
  have a: "rank_loop g acc (m # ms) h = (Inr (acc @ m # ms), h')"
    using rank_loop_step [OF anc] h' by simp
  have b: "\<forall>m'\<in>set (acc @ m # ms). ranked h' m' (ancs m')"
    using h' by simp
  have c: "\<forall>m' k. k \<noteq> ''ancestors'' \<and> k \<noteq> ''distance_from_root''
             \<longrightarrow> map_of (h' m') k = map_of (h m') k"
    using h' by (simp add: augment_frame)
  have d: "\<forall>m'. m' \<notin> set (m # ms) \<longrightarrow> h' m' = h m'"
    using h' by (simp add: augment_other)
  show ?case
    by (rule exI [of _ h']) (intro conjI a b c d)
qed

lemma sort_keys_ranked:
  assumes "\<forall>m\<in>set xs. ranked h m (ancs m)"
  shows "sort_keys h xs = Inr (map (\<lambda>m. int (length (ancs m))) xs)"
  using assms
  by (induction xs) (auto simp: ranked_def distance_key_def py_getitem_def)

lemma insort_key_decorated:
  "insort_key fst (f x, x) (map (\<lambda>y. (f y, y)) ys) = map (\<lambda>y. (f y, y)) (insort_key f x ys)"
  by (induction ys) auto

lemma sort_key_decorated:
  "sort_key fst (map (\<lambda>y. (f y, y)) xs) = map (\<lambda>y. (f y, y)) (sort_key f xs)"
  by (induction xs) (simp_all add: insort_key_decorated)

lemma zip_decorated: "zip (map f xs) xs = map (\<lambda>y. (f y, y)) xs"
  by (induction xs) auto

lemma undecorate_sort: "map snd (sort_key fst (zip (map f xs) xs)) = sort_key f xs"
  by (simp add: zip_decorated sort_key_decorated comp_def)

lemma rank_ok:
  assumes "\<forall>m\<in>set ms. fetch_ok g h m (ancs m)"
  shows "\<exists>h'. rank_ontology_matches_by_distance g ms h
                = (Inr (sort_key (\<lambda>m. int (length (ancs m))) ms), h')
     \<and> (\<forall>m\<in>set ms. ranked h' m (ancs m))
     \<and> (\<forall>m k. k \<noteq> ''ancestors'' \<and> k \<noteq> ''distance_from_root''
            \<longrightarrow> map_of (h' m) k = map_of (h m) k)
     \<and> (\<forall>m. m \<notin> set ms \<longrightarrow> h' m = h m)"
proof -
  have "\<forall>m\<in>set []. ranked h m (ancs m)" by simp
  from rank_loop_ok [OF assms this] obtain h' where h':
    "rank_loop g [] ms h = (Inr ([] @ ms), h')
     \<and> (\<forall>m\<in>set ([] @ ms). ranked h' m (ancs m))
     \<and> (\<forall>m k. k \<noteq> ''ancestors'' \<and> k \<noteq> ''distance_from_root''
            \<longrightarrow> map_of (h' m) k = map_of (h m) k)
     \<and> (\<forall>m. m \<notin> set ms \<longrightarrow> h' m = h m)" ..
  then have rk: "\<forall>m\<in>set ms. ranked h' m (ancs m)" by simp
  have "sort_by_distance h' ms = Inr (sort_key (\<lambda>m. int (length (ancs m))) ms)"
    by (simp add: sort_by_distance_def sort_keys_ranked [OF rk] undecorate_sort)
  with h' have r: "rank_ontology_matches_by_distance g ms h
       = (Inr (sort_key (\<lambda>m. int (length (ancs m))) ms), h')"
    by (simp add: rank_ontology_matches_by_distance_def)
  from h' have c: "\<forall>m k. k \<noteq> ''ancestors'' \<and> k \<noteq> ''distance_from_root''
                     \<longrightarrow> map_of (h' m) k = map_of (h m) k"
    and d: "\<forall>m. m \<notin> set ms \<longrightarrow> h' m = h m" by simp_all
  show ?thesis
    by (rule exI [of _ h']) (intro conjI r rk c d)
qed

lemma sort_key_agree:
  "(\<And>x. x \<in> set xs \<Longrightarrow> f x = g x) \<Longrightarrow> sort_key f xs = sort_key g xs"
proof (induction xs)
  case Nil
  then show ?case by simp
next
  case (Cons x xs)
  then have eq: "sort_key f xs = sort_key g xs" by simp
  have "insort_key f x ys = insort_key g x ys" if "set ys \<subseteq> set (x # xs)" for ys
    using that Cons.prems by (induction ys) auto
  then have "insort_key f x (sort_key g xs) = insort_key g x (sort_key g xs)"
    by (simp add: subset_insertI2)
  with eq show ?case by simp
qed

lemma ranked_keys:
  assumes "ranked h' m anc"
    and "\<forall>k. k \<noteq> ''ancestors'' \<and> k \<noteq> ''distance_from_root'' \<longrightarrow> map_of (h' m) k = map_of (h m) k"
  shows "fst ` set (h' m) = fst ` set (h m) \<union> {''ancestors'', ''distance_from_root''}"
proof -
  have "dom (map_of (h' m)) = dom (map_of (h m)) \<union> {''ancestors'', ''distance_from_root''}"
  proof (rule set_eqI)
    fix k
    show "(k \<in> dom (map_of (h' m)))
        = (k \<in> dom (map_of (h m)) \<union> {''ancestors'', ''distance_from_root''})"
    proof (cases "k = ''ancestors'' \<or> k = ''distance_from_root''")
      case True
      with assms(1) show ?thesis by (auto simp: ranked_def)
    next
      case False
      with assms(2) have "map_of (h' m) k = map_of (h m) k" by simp
      with False show ?thesis by (simp add: dom_def)
    qed
  qed
  then show ?thesis by (simp add: dom_map_of_conv_image_fst)
qed

lemma example_fetch_A: "fetch_ok ancestors_3_1 two_concepts 0 (ancestor_terms 3)"
  by (simp add: fetch_ok_def two_concepts_def concept_A_def get_term_ancestors_def
      ancestors_3_1_def ancestors_body_def)

lemma example_fetch_B: "fetch_ok ancestors_3_1 two_concepts (Suc 0) (ancestor_terms 1)"
  by (simp add: fetch_ok_def two_concepts_def concept_B_def get_term_ancestors_def
      ancestors_3_1_def ancestors_body_def)

section \<open>Facts about the enrichment loop\<close>





















section \<open>Properties of the extraction\<close>

text \<open>
  C9 (as the code has it). \<open>get_highlight_color\<close> returns the highlight index when one is
  present and its value is not zero, whether or not the font also has an RGB colour;
  otherwise it returns the RGB colour when the font has one; otherwise it returns
  \<open>None\<close>, and the run loop then leaves the category map as it was.
\<close>

theorem get_highlight_color_policy:
  "(\<forall>h. font_highlight_color r = Some h \<and> member_value h \<noteq> 0
        \<longrightarrow> get_highlight_color r = Some (HighlightIndex h))
   \<and> (\<forall>c. \<not> truthy_highlight (font_highlight_color r) \<and> font_color_rgb r = Some c
        \<longrightarrow> get_highlight_color r = Some (RGB c))
   \<and> (\<not> truthy_highlight (font_highlight_color r) \<and> font_color_rgb r = None
        \<longrightarrow> get_highlight_color r = None \<and> fst (run_step (m, s) r) = m)"
  by (auto simp: get_highlight_color_def truthy_highlight_def run_step_def Let_def)

theorem get_highlight_color_policy_witness:
  "font_highlight_color (pink_run ''adults'') = Some PINK \<and> member_value PINK \<noteq> 0
   \<and> get_highlight_color (pink_run ''adults'') = Some (HighlightIndex PINK)
   \<and> \<not> truthy_highlight (font_highlight_color red_run)
   \<and> font_color_rgb red_run = Some (RGBColor 255 0 0)
   \<and> get_highlight_color red_run = Some (RGB (RGBColor 255 0 0))
   \<and> \<not> truthy_highlight (font_highlight_color (plain_run ''adults''))
   \<and> font_color_rgb (plain_run ''adults'') = None
   \<and> get_highlight_color (plain_run ''adults'') = None
   \<and> fst (run_step ([], []) (plain_run ''adults'')) = []"
proof -
  have a: "font_highlight_color (pink_run ''adults'') = Some PINK \<and> member_value PINK \<noteq> 0"
    by (simp add: pink_run_def PINK_def)
  have b: "\<not> truthy_highlight (font_highlight_color red_run)
      \<and> font_color_rgb red_run = Some (RGBColor 255 0 0)"
    by (simp add: red_run_def truthy_highlight_def)
  have c: "\<not> truthy_highlight (font_highlight_color (plain_run ''adults''))
      \<and> font_color_rgb (plain_run ''adults'') = None"
    by (simp add: plain_run_def truthy_highlight_def)
  from a b c
    get_highlight_color_policy [of "pink_run ''adults''"]
    get_highlight_color_policy [of red_run]
    get_highlight_color_policy [of "plain_run ''adults''" "[]" "[]"]
  show ?thesis by blast
qed

text \<open>
  C9 fails as stated: a run whose highlight index is \<open>AUTO\<close>, of value zero, and whose
  font has an RGB colour, gets the RGB colour and not the highlight index.
\<close>

theorem get_highlight_color_auto_counterexample:
  "font_highlight_color auto_red_run = Some AUTO
   \<and> get_highlight_color auto_red_run = Some (RGB (RGBColor 255 0 0))
   \<and> get_highlight_color auto_red_run \<noteq> Some (HighlightIndex AUTO)"
  by (simp add: auto_red_run_def AUTO_def get_highlight_color_def truthy_highlight_def)

text \<open>
  C6. The table of the scenario yields exactly one record, with the title, the year, the
  phrase under \<open>Population\<close> and a statement that contains both run texts joined by a
  space.
\<close>

theorem extract_scenario:
  "extract_peco_highlights_from_tables [scenario_table] =
     Inr [[(''doc_title'', TStr ''Study X''),
           (''doc_year'', TStr ''2020''),
           (''peco_elements'', TElems [(''Population'', [''elderly adults''])]),
           (''peco_statement'', TStr ''elderly adults were studied '')]]
   \<and> py_in (''elderly adults'' @ '' '' @ ''were studied'') ''elderly adults were studied ''"
  by code_simp

text \<open>
  C3 (as the code has it). On a document all of whose rows have a cell, the extraction
  returns as many records as there are tables with a row whose first cell's trimmed text
  contains one of the seven labels; the tables with a PECO-statement row are among them.
\<close>

theorem extract_count_recognized:
  assumes "\<forall>t\<in>set doc. \<forall>r\<in>set t. r \<noteq> []"
  shows "\<exists>recs. extract_peco_highlights_from_tables doc = Inr recs
     \<and> length recs = length (filter has_recognized_row doc)
     \<and> length (filter has_peco_row doc) \<le> length recs"
proof -
  from tables_loop_length [OF assms, of "[]"] obtain recs
    where recs: "tables_loop [] doc = Inr recs"
      "length recs = length (filter has_recognized_row doc)" by auto
  have "length (filter has_peco_row doc) \<le> length (filter has_recognized_row doc)"
    by (rule filter_length_mono) (rule peco_row_recognized)
  with recs show ?thesis
    by (simp add: extract_peco_highlights_from_tables_def)
qed

theorem extract_count_recognized_witness:
  "list_all (list_all (\<lambda>r. r \<noteq> [])) [scenario_table, unlabelled_table, title_only_table]
   \<and> (\<exists>recs. extract_peco_highlights_from_tables
                 [scenario_table, unlabelled_table, title_only_table] = Inr recs
         \<and> length recs = length (filter has_recognized_row
                                    [scenario_table, unlabelled_table, title_only_table])
         \<and> length (filter has_peco_row [scenario_table, unlabelled_table, title_only_table])
             \<le> length recs)
   \<and> length (filter has_recognized_row [scenario_table, unlabelled_table, title_only_table]) = 2"
proof -
  have h: "\<forall>t\<in>set [scenario_table, unlabelled_table, title_only_table]. \<forall>r\<in>set t. r \<noteq> []"
    by (simp add: scenario_table_def unlabelled_table_def title_only_table_def)
  have n: "length (filter has_recognized_row
                     [scenario_table, unlabelled_table, title_only_table]) = 2"
    by code_simp
  from h have "list_all (list_all (\<lambda>r. r \<noteq> []))
                 [scenario_table, unlabelled_table, title_only_table]"
    by (simp add: list_all_iff)
  with n extract_count_recognized [OF h] show ?thesis by blast
qed

text \<open>
  C3 fails as stated: a table with a title row and no PECO-statement row produces a
  record.
\<close>

theorem extract_count_title_only_counterexample:
  "extract_peco_highlights_from_tables [title_only_table] =
     Inr [[(''doc_title'', TStr ''Study X'')]]
   \<and> length (filter has_peco_row [title_only_table]) = 0"
  by code_simp

text \<open>
  C8. When a table has a row whose first cell contains "PECO statement" and no later row
  does, the table's record carries the elements and the statement computed from that
  row, whatever earlier rows stored.
\<close>

theorem extract_last_peco_row_wins:
  assumes rows: "\<forall>r\<in>set t. r \<noteq> []"
    and split: "t = before @ r # after"
    and peco: "first_cell_contains ''PECO statement'' r"
    and later: "\<forall>r'\<in>set after. \<not> first_cell_contains ''PECO statement'' r'"
  shows "\<exists>d. extract_peco_highlights_from_tables [t] = Inr [d]
     \<and> map_of d ''peco_elements'' = Some (TElems (fst (peco_cell_scan (last r))))
     \<and> map_of d ''peco_statement'' = Some (TStr (snd (peco_cell_scan (last r))))"
proof -
  from rows split have "\<forall>r\<in>set before. r \<noteq> []" by simp
  from rows_loop_Nil [OF this, of "[]"] obtain d0 where d0: "rows_loop [] before = Inr d0"
    by blast
  from row_step_peco [OF peco, of d0] obtain d1 where d1: "row_step d0 r = Inr d1"
    "map_of d1 ''peco_elements'' = Some (TElems (fst (peco_cell_scan (last r))))"
    "map_of d1 ''peco_statement'' = Some (TStr (snd (peco_cell_scan (last r))))" by blast
  from rows split later
  have "\<forall>r\<in>set after. r \<noteq> [] \<and> \<not> first_cell_contains ''PECO statement'' r" by simp
  from rows_loop_other [OF this, of d1] obtain d2 where d2: "rows_loop d1 after = Inr d2"
    "map_of d2 ''peco_elements'' = map_of d1 ''peco_elements''"
    "map_of d2 ''peco_statement'' = map_of d1 ''peco_statement''" by blast
  have loop: "rows_loop [] t = Inr d2"
    using split d0 d1 d2 by (simp add: rows_loop_append)
  have "d2 \<noteq> []" using d2 d1 by auto
  with loop d1 d2 show ?thesis
    by (simp add: extract_peco_highlights_from_tables_def)
qed

theorem extract_last_peco_row_wins_witness:
  "list_all (\<lambda>r. r \<noteq> []) [children_row, adults_row, year_row]
   \<and> [children_row, adults_row, year_row] = [children_row] @ adults_row # [year_row]
   \<and> first_cell_contains ''PECO statement'' children_row
   \<and> first_cell_contains ''PECO statement'' adults_row
   \<and> \<not> first_cell_contains ''PECO statement'' year_row
   \<and> peco_cell_scan (last adults_row) = ([(''Population'', [''adults''])], ''adults '')
   \<and> (\<exists>d. extract_peco_highlights_from_tables [[children_row, adults_row, year_row]] = Inr [d]
         \<and> map_of d ''peco_elements'' = Some (TElems (fst (peco_cell_scan (last adults_row))))
         \<and> map_of d ''peco_statement'' = Some (TStr (snd (peco_cell_scan (last adults_row)))))"
proof -
  have rows: "\<forall>r\<in>set [children_row, adults_row, year_row]. r \<noteq> []"
    by (simp add: children_row_def adults_row_def year_row_def)
  have split: "[children_row, adults_row, year_row] = [children_row] @ adults_row # [year_row]"
    by simp
  have first: "first_cell_contains ''PECO statement'' children_row"
    by code_simp
  have peco: "first_cell_contains ''PECO statement'' adults_row"
    by code_simp
  have year: "\<not> first_cell_contains ''PECO statement'' year_row"
    by code_simp
  then have later: "\<forall>r'\<in>set [year_row]. \<not> first_cell_contains ''PECO statement'' r'"
    by simp
  have scan: "peco_cell_scan (last adults_row) = ([(''Population'', [''adults''])], ''adults '')"
    by code_simp
  from rows have "list_all (\<lambda>r. r \<noteq> []) [children_row, adults_row, year_row]"
    by (simp add: list_all_iff)
  with split first peco year scan extract_last_peco_row_wins [OF rows split peco later]
  show ?thesis by blast
qed

section \<open>Properties of the ontology search\<close>

text \<open>
  C7. When the search delivers a body whose documents are objects, every concept built
  has exactly the five fields, and each field holds the document's value or, where the
  document lacks the field, the field's sentinel string.
\<close>

theorem retrieve_concept_fields:
  assumes "http_get (search_params term n ont) = Body results"
    and "py_get results ''response'' (JObj []) = Inr response"
    and "py_get response ''docs'' (JArr []) = Inr (JArr (map JObj infos))"
  shows "\<exists>cs. retrieve_ontology_matches http_get dumps term n ont = Inr (Pair (dumps results) cs)
     \<and> length cs = length infos
     \<and> (\<forall>i<length infos.
          map fst (cs ! i) = [''label'', ''iri'', ''description'', ''ontology_name'', ''short_form'']
          \<and> (\<forall>(k, sentinel) \<in> set [(''label'', ''No Label''), (''iri'', ''No IRI''),
                 (''description'', ''No Description''), (''ontology_name'', ''No Ontology Name''),
                 (''short_form'', ''No Short Form'')].
               map_of (cs ! i) k
                 = Some (case map_of (infos ! i) k of None \<Rightarrow> JStr sentinel | Some v \<Rightarrow> v)))"
  using assms
  by (simp add: retrieve_ontology_matches_def concepts_loop_objects concept_of_def)

theorem retrieve_concept_fields_witness:
  "(\<lambda>p. Body search_body) (search_params ''diabetes'' 5 None) = Body search_body
   \<and> py_get search_body ''response'' (JObj []) = Inr search_response
   \<and> py_get search_response ''docs'' (JArr []) = Inr (JArr (map JObj search_infos))
   \<and> map_of (hd search_infos) ''description'' = None
   \<and> (\<exists>cs. retrieve_ontology_matches (\<lambda>p. Body search_body) (\<lambda>j. ''{}'') ''diabetes'' 5 None
              = Inr (Pair ''{}'' cs)
         \<and> length cs = length search_infos
         \<and> (\<forall>i<length search_infos.
              map fst (cs ! i)
                = [''label'', ''iri'', ''description'', ''ontology_name'', ''short_form'']
              \<and> (\<forall>(k, sentinel) \<in> set [(''label'', ''No Label''), (''iri'', ''No IRI''),
                     (''description'', ''No Description''),
                     (''ontology_name'', ''No Ontology Name''),
                     (''short_form'', ''No Short Form'')].
                   map_of (cs ! i) k
                     = Some (case map_of (search_infos ! i) k of
                               None \<Rightarrow> JStr sentinel
                             | Some v \<Rightarrow> v))))"
proof -
  have a: "(\<lambda>p. Body search_body) (search_params ''diabetes'' 5 None) = Body search_body"
    by simp
  have b: "py_get search_body ''response'' (JObj []) = Inr search_response"
    by (simp add: search_body_def)
  have c: "py_get search_response ''docs'' (JArr []) = Inr (JArr (map JObj search_infos))"
    by (simp add: search_response_def)
  have d: "map_of (hd search_infos) ''description'' = None"
    by (simp add: search_infos_def)
  from a b c d retrieve_concept_fields [OF a b c, of "\<lambda>j. ''{}''"]
  show ?thesis by blast
qed

section \<open>Properties of the ranking\<close>

text \<open>
  C5. When the ancestor fetch of every concept succeeds, with \<open>dist m\<close> ancestors for the
  concept \<open>m\<close>, the ranking returns the concepts sorted ascending by the distance it
  stored in them, and concepts of equal distance keep their input order.
\<close>

theorem rank_sorted_stable:
  assumes "\<forall>m\<in>set ms. \<exists>anc. fetch_ok http_get h m anc \<and> int (length anc) = dist m"
  shows "\<exists>out h'. rank_ontology_matches_by_distance http_get ms h = (Inr out, h')
     \<and> (\<forall>m\<in>set ms. map_of (h' m) ''distance_from_root'' = Some (JNum (dist m)))
     \<and> out = sort_key dist ms
     \<and> sorted (map dist out)
     \<and> (\<forall>k. filter (\<lambda>m. dist m = k) out = filter (\<lambda>m. dist m = k) ms)"
proof -
  define ancs where "ancs m = (SOME anc. fetch_ok http_get h m anc \<and> int (length anc) = dist m)"
    for m
  have sel: "fetch_ok http_get h m (ancs m) \<and> int (length (ancs m)) = dist m"
    if "m \<in> set ms" for m
  proof -
    from that assms have "\<exists>anc. fetch_ok http_get h m anc \<and> int (length anc) = dist m"
      by simp
    then show ?thesis unfolding ancs_def by (rule someI_ex)
  qed
  then have ok: "\<forall>m\<in>set ms. fetch_ok http_get h m (ancs m)" by simp
  have key: "sort_key (\<lambda>m. int (length (ancs m))) ms = sort_key dist ms"
    by (rule sort_key_agree) (simp add: sel)
  from rank_ok [OF ok] obtain h' where h':
    "rank_ontology_matches_by_distance http_get ms h
       = (Inr (sort_key (\<lambda>m. int (length (ancs m))) ms), h')
     \<and> (\<forall>m\<in>set ms. ranked h' m (ancs m))
     \<and> (\<forall>m k. k \<noteq> ''ancestors'' \<and> k \<noteq> ''distance_from_root''
            \<longrightarrow> map_of (h' m) k = map_of (h m) k)
     \<and> (\<forall>m. m \<notin> set ms \<longrightarrow> h' m = h m)" ..
  with key
  have a: "rank_ontology_matches_by_distance http_get ms h = (Inr (sort_key dist ms), h')"
    by simp
  have b: "\<forall>m\<in>set ms. map_of (h' m) ''distance_from_root'' = Some (JNum (dist m))"
  proof
    fix m assume m: "m \<in> set ms"
    with h' have "ranked h' m (ancs m)" by simp
    with sel [OF m] show "map_of (h' m) ''distance_from_root'' = Some (JNum (dist m))"
      by (simp add: ranked_def)
  qed
  have c: "sorted (map dist (sort_key dist ms))"
    by (rule sorted_sort_key)
  have d: "\<forall>k. filter (\<lambda>m. dist m = k) (sort_key dist ms) = filter (\<lambda>m. dist m = k) ms"
    by (simp add: sort_key_stable)
  show ?thesis
    by (rule exI [of _ "sort_key dist ms"], rule exI [of _ h']) (intro conjI a b refl c d)
qed

theorem rank_sorted_stable_witness:
  "fetch_ok ancestors_3_1 two_concepts 0 (ancestor_terms 3)
   \<and> int (length (ancestor_terms 3)) = distance_3_1 0
   \<and> fetch_ok ancestors_3_1 two_concepts 1 (ancestor_terms 1)
   \<and> int (length (ancestor_terms 1)) = distance_3_1 1
   \<and> (\<exists>h'. rank_ontology_matches_by_distance ancestors_3_1 [0, 1] two_concepts = (Inr [1, 0], h')
         \<and> map_of (h' 0) ''distance_from_root'' = Some (JNum 3)
         \<and> map_of (h' 1) ''distance_from_root'' = Some (JNum 1))"
proof -
  have a: "fetch_ok ancestors_3_1 two_concepts 0 (ancestor_terms 3)
      \<and> int (length (ancestor_terms 3)) = distance_3_1 0"
    using example_fetch_A by (simp add: ancestor_terms_def distance_3_1_def)
  have b: "fetch_ok ancestors_3_1 two_concepts 1 (ancestor_terms 1)
      \<and> int (length (ancestor_terms 1)) = distance_3_1 1"
    using example_fetch_B by (simp add: ancestor_terms_def distance_3_1_def)
  from a b
  have h: "\<forall>m\<in>set [0, 1]. \<exists>anc. fetch_ok ancestors_3_1 two_concepts m anc
              \<and> int (length anc) = distance_3_1 m"
    by auto
  have s: "sort_key distance_3_1 [0, 1] = [1, 0]"
    by (simp add: distance_3_1_def)
  from rank_sorted_stable [OF h] obtain out h' where r:
    "rank_ontology_matches_by_distance ancestors_3_1 [0, 1] two_concepts = (Inr out, h')
     \<and> (\<forall>m\<in>set [0, 1]. map_of (h' m) ''distance_from_root'' = Some (JNum (distance_3_1 m)))
     \<and> out = sort_key distance_3_1 [0, 1]
     \<and> sorted (map distance_3_1 out)
     \<and> (\<forall>k. filter (\<lambda>m. distance_3_1 m = k) out = filter (\<lambda>m. distance_3_1 m = k) [0, 1])"
    by blast
  with s have "rank_ontology_matches_by_distance ancestors_3_1 [0, 1] two_concepts = (Inr [1, 0], h')
         \<and> map_of (h' 0) ''distance_from_root'' = Some (JNum 3)
         \<and> map_of (h' 1) ''distance_from_root'' = Some (JNum 1)"
    by (simp add: distance_3_1_def)
  with a b show ?thesis by blast
qed

text \<open>
  C10 (as the code has it). When the ancestor fetch of every concept succeeds, the
  ranking returns a permutation of the input references; every input record then holds
  its ancestors under \<open>ancestors\<close> and their number under \<open>distance_from_root\<close>, its
  keys are those it had and these two, every other field of every record is unchanged,
  and records outside the input are untouched.
\<close>

theorem rank_frame:
  assumes "\<forall>m\<in>set ms. \<exists>anc. fetch_ok http_get h m anc"
  shows "\<exists>out h'. rank_ontology_matches_by_distance http_get ms h = (Inr out, h')
     \<and> mset out = mset ms
     \<and> (\<forall>m\<in>set ms. \<exists>anc. fetch_ok http_get h m anc
            \<and> map_of (h' m) ''ancestors'' = Some (JArr anc)
            \<and> map_of (h' m) ''distance_from_root'' = Some (JNum (int (length anc))))
     \<and> (\<forall>m\<in>set ms. fst ` set (h' m) = fst ` set (h m) \<union> {''ancestors'', ''distance_from_root''})
     \<and> (\<forall>m k. k \<noteq> ''ancestors'' \<and> k \<noteq> ''distance_from_root''
            \<longrightarrow> map_of (h' m) k = map_of (h m) k)
     \<and> (\<forall>m. m \<notin> set ms \<longrightarrow> h' m = h m)"
proof -
  define ancs where "ancs m = (SOME anc. fetch_ok http_get h m anc)" for m
  have sel: "fetch_ok http_get h m (ancs m)" if "m \<in> set ms" for m
  proof -
    from that assms have "\<exists>anc. fetch_ok http_get h m anc" by simp
    then show ?thesis unfolding ancs_def by (rule someI_ex)
  qed
  then have ok: "\<forall>m\<in>set ms. fetch_ok http_get h m (ancs m)" by simp
  let ?out = "sort_key (\<lambda>m. int (length (ancs m))) ms"
  from rank_ok [OF ok] obtain h' where h':
    "rank_ontology_matches_by_distance http_get ms h = (Inr ?out, h')
     \<and> (\<forall>m\<in>set ms. ranked h' m (ancs m))
     \<and> (\<forall>m k. k \<noteq> ''ancestors'' \<and> k \<noteq> ''distance_from_root''
            \<longrightarrow> map_of (h' m) k = map_of (h m) k)
     \<and> (\<forall>m. m \<notin> set ms \<longrightarrow> h' m = h m)" ..
  then have a: "rank_ontology_matches_by_distance http_get ms h = (Inr ?out, h')"
    and rk: "\<forall>m\<in>set ms. ranked h' m (ancs m)"
    and e: "\<forall>m k. k \<noteq> ''ancestors'' \<and> k \<noteq> ''distance_from_root''
            \<longrightarrow> map_of (h' m) k = map_of (h m) k"
    and f: "\<forall>m. m \<notin> set ms \<longrightarrow> h' m = h m"
    by simp_all
  have b: "mset ?out = mset ms" by simp
  have c: "\<forall>m\<in>set ms. \<exists>anc. fetch_ok http_get h m anc
            \<and> map_of (h' m) ''ancestors'' = Some (JArr anc)
            \<and> map_of (h' m) ''distance_from_root'' = Some (JNum (int (length anc)))"
  proof
    fix m assume m: "m \<in> set ms"
    with rk have "ranked h' m (ancs m)" by simp
    with sel [OF m] show "\<exists>anc. fetch_ok http_get h m anc
            \<and> map_of (h' m) ''ancestors'' = Some (JArr anc)
            \<and> map_of (h' m) ''distance_from_root'' = Some (JNum (int (length anc)))"
      unfolding ranked_def by blast
  qed
  have d: "\<forall>m\<in>set ms. fst ` set (h' m) = fst ` set (h m) \<union> {''ancestors'', ''distance_from_root''}"
  proof
    fix m assume "m \<in> set ms"
    with rk have "ranked h' m (ancs m)" by simp
    moreover from e have "\<forall>k. k \<noteq> ''ancestors'' \<and> k \<noteq> ''distance_from_root''
        \<longrightarrow> map_of (h' m) k = map_of (h m) k" by simp
    ultimately show "fst ` set (h' m) = fst ` set (h m) \<union> {''ancestors'', ''distance_from_root''}"
      by (rule ranked_keys)
  qed
  show ?thesis
    by (rule exI [of _ ?out], rule exI [of _ h']) (intro conjI a b c d e f)
qed

theorem rank_frame_witness:
  "fetch_ok ancestors_3_1 two_concepts 0 (ancestor_terms 3)
   \<and> fetch_ok ancestors_3_1 two_concepts 1 (ancestor_terms 1)
   \<and> (\<exists>out h'. rank_ontology_matches_by_distance ancestors_3_1 [0, 1] two_concepts = (Inr out, h')
         \<and> mset out = mset [0, 1]
         \<and> (\<forall>m\<in>set [0, 1]. \<exists>anc. fetch_ok ancestors_3_1 two_concepts m anc
                \<and> map_of (h' m) ''ancestors'' = Some (JArr anc)
                \<and> map_of (h' m) ''distance_from_root'' = Some (JNum (int (length anc))))
         \<and> (\<forall>m\<in>set [0, 1]. fst ` set (h' m)
                = fst ` set (two_concepts m) \<union> {''ancestors'', ''distance_from_root''})
         \<and> (\<forall>m k. k \<noteq> ''ancestors'' \<and> k \<noteq> ''distance_from_root''
                \<longrightarrow> map_of (h' m) k = map_of (two_concepts m) k)
         \<and> (\<forall>m. m \<notin> set [0, 1] \<longrightarrow> h' m = two_concepts m))"
proof -
  have a: "fetch_ok ancestors_3_1 two_concepts 0 (ancestor_terms 3)"
    by (rule example_fetch_A)
  have b: "fetch_ok ancestors_3_1 two_concepts 1 (ancestor_terms 1)"
    using example_fetch_B by simp
  from a b have h: "\<forall>m\<in>set [0, 1]. \<exists>anc. fetch_ok ancestors_3_1 two_concepts m anc"
    by auto
  from a b rank_frame [OF h] show ?thesis by blast
qed

text \<open>
  C10 fails as stated: the ranking returns nothing, and raises \<open>TypeError\<close>, on a
  record whose \<open>iri\<close> is not a string, which \<open>quote\<close> rejects, and on a record whose
  ancestor fetch fails.
\<close>

theorem rank_frame_no_result_counterexample:
  "map_of (null_iri_heap 0) ''iri'' = Some JNull
   \<and> map_of (null_iri_heap 0) ''ontology_name'' = Some (JStr ''efo'')
   \<and> rank_ontology_matches_by_distance ancestors_3_1 [0] null_iri_heap
       = (Inl TypeError, null_iri_heap)
   \<and> map_of (two_concepts 0) ''iri'' = Some (JStr ''http://www.ebi.ac.uk/efo/A'')
   \<and> map_of (two_concepts 0) ''ontology_name'' = Some (JStr ''efo'')
   \<and> rank_ontology_matches_by_distance service_down [0] two_concepts
       = (Inl TypeError, two_concepts)"
  by (simp add: two_concepts_def concept_A_def null_iri_heap_def concept_null_iri_def
      rank_ontology_matches_by_distance_def py_getitem_def get_term_ancestors_def
      service_down_def)

text \<open>
  C2, on the code: when the ancestor fetch of one concept fails, \<open>get_term_ancestors\<close>
  returns the exception object and the ranking raises \<open>TypeError\<close> at its \<open>len\<close>,
  whether the failing concept comes first or after a concept already ranked.
\<close>

theorem rank_aborts_on_failed_fetch:
  "get_term_ancestors ancestors_B_fails (JStr ''efo'') (JStr ''http://www.ebi.ac.uk/efo/B'')
     = Inr ExceptionObject
   \<and> rank_ontology_matches_by_distance ancestors_B_fails [1, 0] two_concepts
       = (Inl TypeError, two_concepts)
   \<and> fst (rank_ontology_matches_by_distance ancestors_B_fails [0, 1] two_concepts)
       = Inl TypeError"
  by (simp add: two_concepts_def concept_A_def concept_B_def
      rank_ontology_matches_by_distance_def py_getitem_def get_term_ancestors_def
      ancestors_B_fails_def ancestors_body_def)

section \<open>Properties of the enrichment loop\<close>

text \<open>
  C1, on the code: when the search request fails, \<open>retrieve_ontology_matches\<close> catches
  the exception and returns \<open>None\<close>, not an empty list of matches; the enrichment loop
  unpacks the result into two names and raises \<open>TypeError\<close>, which ends the script.
\<close>

theorem retrieve_failure_aborts_enrichment:
  "retrieve_ontology_matches search_down dumps term numresults ontology = Inr PyNone
   \<and> extract_peco_highlights_from_tables [full_table] = Inr [full_annotation]
   \<and> enrich_annotation search_down dumps full_annotation = Inl TypeError
   \<and> script search_down dumps [full_table] = Inl TypeError"
proof -
  have a: "retrieve_ontology_matches search_down dumps term numresults ontology = Inr PyNone"
    by (simp add: retrieve_ontology_matches_def search_down_def)
  have b: "extract_peco_highlights_from_tables [full_table] = Inr [full_annotation]"
    by code_simp
  have c: "enrich_annotation search_down dumps full_annotation = Inl TypeError"
    by (simp add: enrich_annotation_def full_annotation_def py_getitem_def
        retrieve_ontology_matches_def search_down_def)
  from b c have d: "script search_down dumps [full_table] = Inl TypeError"
    by (simp add: script_def)
  from a b c d show ?thesis by simp
qed




end
